theory Spec2Isabelle
  imports Main "HOL-Library.Stream" "HOL-Library.AList" "HOL-Library.Multiset"
begin

section \<open>The quiz utilities of \<^verbatim>\<open>quiz-utils.py\<close>\<close>

text \<open>
  The module defines two question classes and a quiz runner. Everything they do beyond
  computing a score is made explicit here: the text written to standard output, the lines
  read from standard input, the random source used by \<^verbatim>\<open>shuffle\<close>, the list
  objects the questions refer to, and the exceptions that can leave a call.
\<close>

subsection \<open>Strings\<close>

text \<open>
  A string is a list of characters; a text outside ASCII is the list of the bytes of its
  UTF-8 encoding, under which equality and concatenation are those of the texts.
  \<^verbatim>\<open>str.lower\<close> belongs to the language's library and folds every cased character of
  the character set: it is a parameter \<open>lower\<close> of the model, an arbitrary function on
  strings, so that nothing proved below depends on which characters it changes.
\<close>

type_synonym str_lower = "string \<Rightarrow> string"

definition ascii_lowercase :: string where
  "ascii_lowercase = ''abcdefghijklmnopqrstuvwxyz''"

definition newline :: string where
  "newline = [CHR 0x0A]"

text \<open>\<^verbatim>\<open>sep.join(xs)\<close>\<close>

fun join :: "string \<Rightarrow> string list \<Rightarrow> string" where
  "join sep [] = []"
| "join sep [x] = x"
| "join sep (x # y # ys) = x @ sep @ join sep (y # ys)"

text \<open>The decimal text of an integer, as \<^verbatim>\<open>str.format\<close> writes it.\<close>

fun str_nat :: "nat \<Rightarrow> string" where
  "str_nat n =
     (if n < 10 then [char_of (48 + n)]
      else str_nat (n div 10) @ [char_of (48 + n mod 10)])"

declare str_nat.simps [simp del]

definition str_int :: "int \<Rightarrow> string" where
  "str_int i = (if i < 0 then CHR ''-'' # str_nat (nat (- i)) else str_nat (nat i))"

text \<open>\<^verbatim>\<open>list(ascii_lowercase)\<close>: one string per letter.\<close>

definition letters :: "string list" where
  "letters = map (\<lambda>c. [c]) ascii_lowercase"

subsection \<open>The world a call runs in\<close>

text \<open>
  \<^item> \<open>stdin\<close>: the lines still to be read, \<open>None\<close> standing for the end of the input;
  \<^item> \<open>stdout\<close>: the texts written so far, one entry per write;
  \<^item> \<open>heap\<close>: the list objects, by reference; \<open>next_ref\<close> is the first reference not yet
    in use, so a list built by the program gets a reference no older object has;
  \<^item> \<open>rng\<close>: the state of the random source.
\<close>

datatype error = ValueError string | EOFError

type_synonym ref = nat

record 'g world =
  stdin :: "string option stream"
  stdout :: "string list"
  heap :: "ref \<Rightarrow> string list"
  next_ref :: ref
  rng :: 'g

text \<open>\<^verbatim>\<open>print(s)\<close> writes the text and a line break.\<close>

definition print :: "string \<Rightarrow> 'g world \<Rightarrow> 'g world" where
  "print s w = w\<lparr>stdout := stdout w @ [s @ newline]\<rparr>"

text \<open>
  \<^verbatim>\<open>input(prompt)\<close> writes the prompt and reads one line; at the end of the input it
  raises \<^verbatim>\<open>EOFError\<close>, which is the result \<open>None\<close> here.
\<close>

definition input :: "string \<Rightarrow> 'g world \<Rightarrow> string option \<times> 'g world" where
  "input prompt w =
     (shd (stdin w), w\<lparr>stdout := stdout w @ [prompt], stdin := stl (stdin w)\<rparr>)"

text \<open>
  \<^verbatim>\<open>random.shuffle\<close> belongs to the standard library: it is a parameter of the model, a
  function from a list and the state of the random source to the rearranged list and the
  next state. \<open>is_shuffle\<close> is what the library promises: the result is a permutation.
\<close>

type_synonym 'g shuffle = "string list \<Rightarrow> 'g \<Rightarrow> string list \<times> 'g"

definition is_shuffle :: "'g shuffle \<Rightarrow> bool" where
  "is_shuffle sh = (\<forall>xs g. mset (fst (sh xs g)) = mset xs)"

text \<open>\<^verbatim>\<open>shuffle(x)\<close> rearranges the list object in place.\<close>

definition shuffle_in_place :: "'g shuffle \<Rightarrow> ref \<Rightarrow> 'g world \<Rightarrow> 'g world" where
  "shuffle_in_place sh x w =
     (case sh (heap w x) (rng w) of
        (ys, g) \<Rightarrow> w\<lparr>heap := (heap w)(x := ys), rng := g\<rparr>)"

text \<open>A new list object: \<^verbatim>\<open>xs + ys\<close> builds one.\<close>

definition new_list :: "string list \<Rightarrow> 'g world \<Rightarrow> ref \<times> 'g world" where
  "new_list xs w =
     (next_ref w, w\<lparr>heap := (heap w)(next_ref w := xs), next_ref := Suc (next_ref w)\<rparr>)"

subsection \<open>Question\<close>

text \<open>The fields hold a string and a reference to the list of accepted answers.\<close>

record Question =
  question :: string
  answers :: ref

definition Question_init :: "string \<Rightarrow> ref \<Rightarrow> Question" where
  "Question_init question' answers' = \<lparr>question = question', answers = answers'\<rparr>"

text \<open>
  \<^verbatim>\<open>Question.ask\<close>: the outcome is the exception raised or the value returned, together
  with the world the call leaves behind.
\<close>

definition Question_ask ::
  "str_lower \<Rightarrow> Question \<Rightarrow> 'g world \<Rightarrow> (error + int) \<times> 'g world" where
  "Question_ask lower self w =
     (let w1 = print (question self) w in
      case input ''Your answer: '' w1 of
        (None, w2) \<Rightarrow> (Inl EOFError, w2)
      | (Some user_answer, w2) \<Rightarrow>
          if lower user_answer \<in> set (map lower (heap w2 (answers self)))
          then (Inr 1, print ''Correct!'' w2)
          else (Inr 0, print ''Incorrect!'' w2))"

subsection \<open>MultiChoiceQuestion\<close>

record MultiChoiceQuestion = Question +
  wrong_answers :: ref

definition MultiChoiceQuestion_init ::
  "string \<Rightarrow> ref \<Rightarrow> ref \<Rightarrow> 'g world \<Rightarrow> error + MultiChoiceQuestion" where
  "MultiChoiceQuestion_init question' answers' wrong_answers' w =
     (if length (heap w answers') + length (heap w wrong_answers') > 26 then
        Inl (ValueError
          (''Combined length of correct and incorrect answer lists must be 26 or less. Total options received: ''
           @ str_int (int (length (heap w answers') + length (heap w wrong_answers')))))
      else
        Inr \<lparr>question = question', answers = answers', wrong_answers = wrong_answers'\<rparr>)"

text \<open>
  The dictionary \<^verbatim>\<open>option_list\<close> is an association list in insertion order:
  \<^verbatim>\<open>option_list[letter] = option\<close> replaces the value of a key already there and appends a
  new key otherwise.
\<close>

definition build_option_list :: "string list \<Rightarrow> (string \<times> string) list" where
  "build_option_list all_options =
     fold (\<lambda>(letter, option) option_list. AList.update letter option option_list)
       (zip letters all_options) []"

definition format_option :: "string \<times> string \<Rightarrow> string" where
  "format_option kv = fst kv @ '') '' @ snd kv"

definition full_question_text :: "string \<Rightarrow> (string \<times> string) list \<Rightarrow> string" where
  "full_question_text q option_list = q @ newline @ join newline (map format_option option_list)"

text \<open>
  The first part of \<^verbatim>\<open>MultiChoiceQuestion.ask\<close>, up to the \<^verbatim>\<open>print\<close> of the question:
  the combined list is a new object, shuffled in place; the letters are assigned and the
  question is written.
\<close>

definition present ::
  "'g shuffle \<Rightarrow> MultiChoiceQuestion \<Rightarrow> 'g world \<Rightarrow> (string \<times> string) list \<times> 'g world" where
  "present sh self w =
     (case new_list (heap w (answers self) @ heap w (wrong_answers self)) w of
        (all_options, w1) \<Rightarrow>
          let w2 = shuffle_in_place sh all_options w1;
              option_list = build_option_list (heap w2 all_options)
          in (option_list, print (full_question_text (question self) option_list) w2))"

text \<open>
  How a statement ends: by reaching its end, by \<^verbatim>\<open>return\<close>, or by an exception.
\<close>

datatype flow = Fallthrough | Returned int | Raised error

text \<open>
  The \<^verbatim>\<open>while not valid_input\<close> loop. It may run forever, which is the value \<open>None\<close>.
\<close>

partial_function (option) ask_loop ::
  "str_lower \<Rightarrow> MultiChoiceQuestion \<Rightarrow> (string \<times> string) list \<Rightarrow> bool \<Rightarrow> 'g world \<Rightarrow>
     (flow \<times> 'g world) option"
where
  "ask_loop lower self option_list valid_input w =
     (if \<not> valid_input then
        (case input ''Your answer: '' w of
           (None, w1) \<Rightarrow> Some (Raised EOFError, w1)
         | (Some user_answer, w1) \<Rightarrow>
             if lower user_answer \<in> set (map fst option_list) then
               (let valid_input = True in
                if the (map_of option_list (lower user_answer)) \<in> set (heap w1 (answers self))
                then Some (Returned 1, print ''Correct!'' w1)
                else Some (Returned 0, print ''Incorrect!'' w1))
             else if lower user_answer \<in> set (map (\<lambda>option. lower option) (map snd option_list)) then
               (let valid_input = True in
                if lower user_answer \<in> set (map lower (heap w1 (answers self)))
                then Some (Returned 1, print ''Correct!'' w1)
                else Some (Returned 0, print ''Incorrect!'' w1))
             else
               ask_loop lower self option_list valid_input (print ''Please enter one of the options!'' w1))
      else Some (Fallthrough, w))"

text \<open>\<^verbatim>\<open>MultiChoiceQuestion.ask\<close>: the presentation, the loop, and the statements after it.\<close>

definition MultiChoiceQuestion_ask ::
  "str_lower \<Rightarrow> 'g shuffle \<Rightarrow> MultiChoiceQuestion \<Rightarrow> 'g world \<Rightarrow>
     ((error + int) \<times> 'g world) option" where
  "MultiChoiceQuestion_ask lower sh self w =
     (case present sh self w of
        (option_list, w3) \<Rightarrow>
          (case ask_loop lower self option_list False w3 of
             None \<Rightarrow> None
           | Some (Returned r, w4) \<Rightarrow> Some (Inr r, w4)
           | Some (Raised e, w4) \<Rightarrow> Some (Inl e, w4)
           | Some (Fallthrough, w4) \<Rightarrow>
               Some (Inr 0, print ''How is this method still running?'' w4)))"

subsection \<open>run_quiz\<close>

text \<open>The elements of \<^verbatim>\<open>questions\<close> are objects of either class; \<^verbatim>\<open>ask\<close> is their method.\<close>

datatype quiz_question = Free Question | Multi MultiChoiceQuestion

fun ask ::
  "str_lower \<Rightarrow> 'g shuffle \<Rightarrow> quiz_question \<Rightarrow> 'g world \<Rightarrow>
     ((error + int) \<times> 'g world) option" where
  "ask lower sh (Free q) w = Some (Question_ask lower q w)"
| "ask lower sh (Multi q) w = MultiChoiceQuestion_ask lower sh q w"

text \<open>The \<^verbatim>\<open>for i in range(0, len(questions))\<close> loop, from index \<open>i\<close> with the score so far.\<close>

function run_loop ::
  "str_lower \<Rightarrow> 'g shuffle \<Rightarrow> quiz_question list \<Rightarrow> string \<Rightarrow> int \<Rightarrow> nat \<Rightarrow> int \<Rightarrow> 'g world \<Rightarrow>
     ((error + int) \<times> 'g world) option" where
  "run_loop lower sh questions question_separator first_question_num i score w =
     (if i < length questions then
        (let w1 = print question_separator w;
             w2 = print (''Question '' @ str_int (int i + first_question_num)) w1;
             w3 = print question_separator w2
         in case ask lower sh (questions ! i) w3 of
              None \<Rightarrow> None
            | Some (Inl e, w4) \<Rightarrow> Some (Inl e, w4)
            | Some (Inr r, w4) \<Rightarrow>
                run_loop lower sh questions question_separator first_question_num (Suc i)
                  (score + r) w4)
      else Some (Inr score, w))"
  by pat_completeness auto
termination
  by (relation "measure (\<lambda>(lower, sh, questions, sep, fqn, i, score, w). length questions - i)")
     auto

declare run_loop.simps [simp del]

definition run_quiz ::
  "str_lower \<Rightarrow> 'g shuffle \<Rightarrow> quiz_question list \<Rightarrow> int \<Rightarrow> string \<Rightarrow> int \<Rightarrow> 'g world \<Rightarrow>
     ((error + int) \<times> 'g world) option" where
  "run_quiz lower sh questions score_per_question question_separator first_question_num w =
     (if length questions = 0 then
        Some (Inl (ValueError ''A quiz needs to have questions!''), w)
      else
        (case run_loop lower sh questions question_separator first_question_num 0 0 w of
           None \<Rightarrow> None
         | Some (Inl e, w1) \<Rightarrow> Some (Inl e, w1)
         | Some (Inr score, w1) \<Rightarrow>
             (let w2 = print question_separator w1;
                  w3 = print (''Your score: '' @ str_int score) w2;
                  w4 = print question_separator w3
              in Some (Inr score, w4))))"

subsection \<open>Notions of the specification\<close>

text \<open>
  The option a line of input selects, in the specification's words: the option mapped to
  the letter when the lowercased line is a letter key, else the presented option whose
  text matches the line without regard to case, else none.
\<close>

definition selected_option ::
  "str_lower \<Rightarrow> (string \<times> string) list \<Rightarrow> string \<Rightarrow> string option" where
  "selected_option lower option_list user_answer =
     (case map_of option_list (lower user_answer) of
        Some option \<Rightarrow> Some option
      | None \<Rightarrow> find (\<lambda>option. lower option = lower user_answer) (map snd option_list))"

text \<open>
  The quiz in the specification's words: the questions are asked in sequence order, the
  question at position \<open>i\<close> under the number \<open>i + first_question_num\<close> between two
  separators, and the result of every \<^verbatim>\<open>ask\<close> is collected.
\<close>

fun ask_in_order ::
  "str_lower \<Rightarrow> 'g shuffle \<Rightarrow> string \<Rightarrow> int \<Rightarrow> nat \<Rightarrow> quiz_question list \<Rightarrow> 'g world \<Rightarrow>
     ((error + int list) \<times> 'g world) option" where
  "ask_in_order lower sh sep fqn i [] w = Some (Inr [], w)"
| "ask_in_order lower sh sep fqn i (q # qs) w =
     (case ask lower sh q (print sep (print (''Question '' @ str_int (int i + fqn)) (print sep w))) of
        None \<Rightarrow> None
      | Some (Inl e, w') \<Rightarrow> Some (Inl e, w')
      | Some (Inr r, w') \<Rightarrow>
          (case ask_in_order lower sh sep fqn (Suc i) qs w' of
             None \<Rightarrow> None
           | Some (Inl e, w'') \<Rightarrow> Some (Inl e, w'')
           | Some (Inr rs, w'') \<Rightarrow> Some (Inr (r # rs), w'')))"

text \<open>The texts written for \<open>n\<close> lines of input that select nothing.\<close>

definition reprompts :: "nat \<Rightarrow> string list" where
  "reprompts n =
     concat (replicate n [''Your answer: '', ''Please enter one of the options!'' @ newline])"

subsection \<open>Example inputs\<close>

text \<open>
  A world for the examples: the given lists are the objects at the references
  \<open>0, 1, \<dots>\<close>, nothing has been written, and the input is the given stream.
\<close>

definition world_of :: "string list list \<Rightarrow> string option stream \<Rightarrow> unit world" where
  "world_of objs ins =
     \<lparr>stdin = ins, stdout = [],
      heap = (\<lambda>r. if r < length objs then objs ! r else []),
      next_ref = length objs, rng = ()\<rparr>"

text \<open>
  A lowercasing for the examples, which are ASCII texts: on those it is what
  \<^verbatim>\<open>str.lower\<close> computes, the letters A to Z becoming a to z.
\<close>

definition ascii_uppercase :: string where
  "ascii_uppercase = ''ABCDEFGHIJKLMNOPQRSTUVWXYZ''"

definition ascii_lower_char :: "char \<Rightarrow> char" where
  "ascii_lower_char c =
     (case map_of (zip ascii_uppercase ascii_lowercase) c of Some l \<Rightarrow> l | None \<Rightarrow> c)"

definition ascii_lower :: str_lower where
  "ascii_lower s = map ascii_lower_char s"

text \<open>
  A second one that also folds a letter outside ASCII, the capital E with acute accent
  (U+00C9) to the small one (U+00E9), as \<^verbatim>\<open>str.lower\<close> does.
\<close>

definition capital_e_acute :: string where
  "capital_e_acute = [CHR 0xC3, CHR 0x89]"

definition small_e_acute :: string where
  "small_e_acute = [CHR 0xC3, CHR 0xA9]"

definition accent_lower :: str_lower where
  "accent_lower s = (if s = capital_e_acute then small_e_acute else ascii_lower s)"

text \<open>Two shuffles for the examples: one keeps the order, one reverses it.\<close>

definition keep_order :: "unit shuffle" where
  "keep_order xs g = (xs, g)"

definition reverse_order :: "unit shuffle" where
  "reverse_order xs g = (rev xs, g)"

section \<open>Properties\<close>

subsection \<open>Writing and reading\<close>

lemma print_sel [simp]:
  "stdin (print s w) = stdin w"
  "stdout (print s w) = stdout w @ [s @ newline]"
  "heap (print s w) = heap w"
  "next_ref (print s w) = next_ref w"
  "rng (print s w) = rng w"
  by (simp_all add: print_def)

lemma world_of_sel [simp]:
  "stdin (world_of objs ins) = ins"
  "stdout (world_of objs ins) = []"
  "heap (world_of objs ins) r = (if r < length objs then objs ! r else [])"
  "next_ref (world_of objs ins) = length objs"
  by (simp_all add: world_of_def)

lemmas lower_eval =
  ascii_lower_def ascii_lower_char_def ascii_uppercase_def ascii_lowercase_def
  accent_lower_def capital_e_acute_def small_e_acute_def

lemma is_shuffle_keep_order: "is_shuffle keep_order"
  by (simp add: is_shuffle_def keep_order_def)

lemma is_shuffle_reverse_order: "is_shuffle reverse_order"
  by (simp add: is_shuffle_def reverse_order_def)

subsection \<open>Construction\<close>

text \<open>
  C2. Constructing a MultiChoiceQuestion raises the error (a \<^verbatim>\<open>ValueError\<close>) exactly when
  the two answer lists have more than 26 entries together; with at most 26, empty lists
  included, it succeeds and the object holds the three arguments.
\<close>

theorem MultiChoiceQuestion_init_raises_iff:
  "((\<exists>msg. MultiChoiceQuestion_init q a b w = Inl (ValueError msg))
      \<longleftrightarrow> length (heap w a) + length (heap w b) > 26)
   \<and> ((\<exists>e. MultiChoiceQuestion_init q a b w = Inl e)
      \<longleftrightarrow> length (heap w a) + length (heap w b) > 26)
   \<and> (length (heap w a) + length (heap w b) \<le> 26 \<longrightarrow>
        MultiChoiceQuestion_init q a b w = Inr \<lparr>question = q, answers = a, wrong_answers = b\<rparr>)"
  by (simp add: MultiChoiceQuestion_init_def)

theorem MultiChoiceQuestion_init_witness:
  "MultiChoiceQuestion_init ''Pick'' 0 1 (world_of [[], []] (sconst None))
     = Inr \<lparr>question = ''Pick'', answers = 0, wrong_answers = 1\<rparr>
   \<and> MultiChoiceQuestion_init ''Pick'' 0 1 (world_of [replicate 26 ''x'', []] (sconst None))
     = Inr \<lparr>question = ''Pick'', answers = 0, wrong_answers = 1\<rparr>
   \<and> (\<exists>msg. MultiChoiceQuestion_init ''Pick'' 0 1
         (world_of [replicate 20 ''x'', replicate 7 ''y''] (sconst None)) = Inl (ValueError msg))"
  using MultiChoiceQuestion_init_raises_iff
          [of "''Pick''" 0 1 "world_of [[], []] (sconst None)"]
        MultiChoiceQuestion_init_raises_iff
          [of "''Pick''" 0 1 "world_of [replicate 26 ''x'', []] (sconst None)"]
        MultiChoiceQuestion_init_raises_iff
          [of "''Pick''" 0 1 "world_of [replicate 20 ''x'', replicate 7 ''y''] (sconst None)"]
  by simp

subsection \<open>Question.ask\<close>

text \<open>
  C3. When a line can be read, Question.ask returns 1 if the line, lowercased, equals some
  accepted answer, lowercased, and 0 otherwise; nothing is trimmed. With an empty list of
  accepted answers it returns 0 for every line.
\<close>

theorem Question_ask_score:
  assumes "stdin w = Some user_answer ## rest"
  shows "fst (Question_ask lower self w) =
           Inr (if \<exists>answer \<in> set (heap w (answers self)). lower user_answer = lower answer
                then 1 else 0)
         \<and> (heap w (answers self) = [] \<longrightarrow> fst (Question_ask lower self w) = Inr 0)"
  using assms by (auto simp: Question_ask_def input_def Let_def)

theorem Question_ask_score_witness:
  "fst (Question_ask ascii_lower \<lparr>question = ''Capital of France?'', answers = 0\<rparr>
          (world_of [[''Paris'']] (Some ''PARIS'' ## sconst None))) = Inr 1
   \<and> fst (Question_ask ascii_lower \<lparr>question = ''Capital of France?'', answers = 0\<rparr>
          (world_of [[''Paris'']] (Some ''Paris '' ## sconst None))) = Inr 0
   \<and> fst (Question_ask ascii_lower \<lparr>question = ''Capital of France?'', answers = 0\<rparr>
          (world_of [[]] (Some [] ## sconst None))) = Inr 0
   \<and> fst (Question_ask accent_lower \<lparr>question = ''Fifth letter?'', answers = 0\<rparr>
          (world_of [[small_e_acute]] (Some capital_e_acute ## sconst None))) = Inr 1"
  using Question_ask_score
          [of "world_of [[''Paris'']] (Some ''PARIS'' ## sconst None)" "''PARIS''" "sconst None"
              ascii_lower "\<lparr>question = ''Capital of France?'', answers = 0\<rparr>"]
        Question_ask_score
          [of "world_of [[''Paris'']] (Some ''Paris '' ## sconst None)" "''Paris ''" "sconst None"
              ascii_lower "\<lparr>question = ''Capital of France?'', answers = 0\<rparr>"]
        Question_ask_score
          [of "world_of [[]] (Some [] ## sconst None)" "[]" "sconst None"
              ascii_lower "\<lparr>question = ''Capital of France?'', answers = 0\<rparr>"]
        Question_ask_score
          [of "world_of [[small_e_acute]] (Some capital_e_acute ## sconst None)"
              capital_e_acute "sconst None"
              accent_lower "\<lparr>question = ''Fifth letter?'', answers = 0\<rparr>"]
  by (simp add: lower_eval)

subsection \<open>The input loop\<close>

lemma ask_loop_line:
  assumes "stdin w = Some l ## rest"
  shows "ask_loop lower self ol False w =
     (let w1 = w\<lparr>stdout := stdout w @ [''Your answer: ''], stdin := rest\<rparr> in
      if lower l \<in> set (map fst ol) then
        (if the (map_of ol (lower l)) \<in> set (heap w (answers self))
         then Some (Returned 1, print ''Correct!'' w1)
         else Some (Returned 0, print ''Incorrect!'' w1))
      else if lower l \<in> set (map lower (map snd ol)) then
        (if lower l \<in> set (map lower (heap w (answers self)))
         then Some (Returned 1, print ''Correct!'' w1)
         else Some (Returned 0, print ''Incorrect!'' w1))
      else ask_loop lower self ol False (print ''Please enter one of the options!'' w1))"
  by (subst ask_loop.simps) (simp add: input_def Let_def assms)

lemma ask_loop_eof:
  assumes "shd (stdin w) = None"
  shows "ask_loop lower self ol False w =
     Some (Raised EOFError, w\<lparr>stdout := stdout w @ [''Your answer: ''], stdin := stl (stdin w)\<rparr>)"
  by (subst ask_loop.simps) (simp add: input_def assms)

lemma ask_loop_skip:
  assumes "\<forall>b\<in>set bad. lower b \<notin> set (map fst ol) \<and> lower b \<notin> set (map lower (map snd ol))"
    and "stdin w = map Some bad @- s"
  shows "ask_loop lower self ol False w =
     ask_loop lower self ol False (w\<lparr>stdout := stdout w @ reprompts (length bad), stdin := s\<rparr>)"
  using assms
proof (induction bad arbitrary: w)
  case Nil
  then have "s = stdin w" by simp
  then show ?case by (simp add: reprompts_def)
next
  case (Cons b bad)
  let ?w1 = "print ''Please enter one of the options!''
               (w\<lparr>stdout := stdout w @ [''Your answer: ''], stdin := map Some bad @- s\<rparr>)"
  have st: "stdin w = Some b ## (map Some bad @- s)"
    using Cons.prems(2) by simp
  have "ask_loop lower self ol False w = ask_loop lower self ol False ?w1"
    using Cons.prems(1) by (simp add: ask_loop_line [OF st] Let_def)
  also have "\<dots> = ask_loop lower self ol False
                    (?w1\<lparr>stdout := stdout ?w1 @ reprompts (length bad), stdin := s\<rparr>)"
    using Cons.prems(1) by (intro Cons.IH) simp_all
  also have "?w1\<lparr>stdout := stdout ?w1 @ reprompts (length bad), stdin := s\<rparr>
     = w\<lparr>stdout := stdout w @ reprompts (length (b # bad)), stdin := s\<rparr>"
    by (simp add: print_def reprompts_def)
  finally show ?case .
qed

lemma ask_loop_frame:
  assumes "ask_loop lower self ol vi w = Some y"
  shows "heap (snd y) = heap w \<and> next_ref (snd y) = next_ref w \<and> rng (snd y) = rng w"
  by (rule ask_loop.raw_induct
        [where P = "\<lambda>lower self ol vi w y.
                      heap (snd y) = heap w \<and> next_ref (snd y) = next_ref w \<and> rng (snd y) = rng w",
         OF _ assms])
     (auto split: if_splits option.splits prod.splits simp: input_def Let_def)

lemma ask_loop_flow:
  assumes "ask_loop lower self ol vi w = Some y"
  shows "(fst y = Fallthrough \<longrightarrow> vi) \<and> (\<forall>r. fst y = Returned r \<longrightarrow> r = 0 \<or> r = 1)
     \<and> (\<forall>e. fst y = Raised e \<longrightarrow> e = EOFError)"
  by (rule ask_loop.raw_induct
        [where P = "\<lambda>lower self ol vi w y.
                      (fst y = Fallthrough \<longrightarrow> vi) \<and> (\<forall>r. fst y = Returned r \<longrightarrow> r = 0 \<or> r = 1)
                      \<and> (\<forall>e. fst y = Raised e \<longrightarrow> e = EOFError)",
         OF _ assms])
     (fastforce split: if_splits option.splits prod.splits simp: input_def Let_def)

lemma ask_loop_stdout:
  assumes "ask_loop lower self ol vi w = Some y"
  shows "\<exists>written. stdout (snd y) = stdout w @ written"
  by (rule ask_loop.raw_induct
        [where P = "\<lambda>lower self ol vi w y. \<exists>written. stdout (snd y) = stdout w @ written",
         OF _ assms])
     (fastforce split: if_splits option.splits prod.splits simp: input_def Let_def)

lemma ask_loop_empty:
  assumes "ask_loop lower self [] False w = Some y"
  shows "fst y = Raised EOFError \<and> None \<in> sset (stdin w)"
proof -
  have "([] :: (string \<times> string) list) = [] \<and> \<not> False \<longrightarrow>
          fst y = Raised EOFError \<and> None \<in> sset (stdin w)"
  proof (rule ask_loop.raw_induct
        [where P = "\<lambda>lower self ol vi w y.
                      ol = [] \<and> \<not> vi \<longrightarrow> fst y = Raised EOFError \<and> None \<in> sset (stdin w)",
         OF _ assms], intro impI, elim conjE)
    fix f :: "str_lower \<Rightarrow> MultiChoiceQuestion \<Rightarrow> (string \<times> string) list \<Rightarrow> bool \<Rightarrow> 'a world
                \<Rightarrow> (flow \<times> 'a world) option"
    fix lower :: str_lower
    fix self ol vi w y
    assume IH: "\<And>lower self ol vi w y. f lower self ol vi w = Some y \<Longrightarrow>
                  ol = [] \<and> \<not> vi \<longrightarrow> fst y = Raised EOFError \<and> None \<in> sset (stdin w)"
      and body: "(if \<not> vi then
        (case input ''Your answer: '' w of
           (None, w1) \<Rightarrow> Some (Raised EOFError, w1)
         | (Some user_answer, w1) \<Rightarrow>
             if lower user_answer \<in> set (map fst ol) then
               (let valid_input = True in
                if the (map_of ol (lower user_answer)) \<in> set (heap w1 (answers self))
                then Some (Returned 1, print ''Correct!'' w1)
                else Some (Returned 0, print ''Incorrect!'' w1))
             else if lower user_answer \<in> set (map (\<lambda>option. lower option) (map snd ol)) then
               (let valid_input = True in
                if lower user_answer \<in> set (map lower (heap w1 (answers self)))
                then Some (Returned 1, print ''Correct!'' w1)
                else Some (Returned 0, print ''Incorrect!'' w1))
             else
               f lower self ol vi (print ''Please enter one of the options!'' w1))
      else Some (Fallthrough, w)) = Some y"
      and ol: "ol = []" and vi: "\<not> vi"
    show "fst y = Raised EOFError \<and> None \<in> sset (stdin w)"
    proof (cases "shd (stdin w)")
      case None
      then have "None \<in> sset (stdin w)"
        by (metis shd_sset)
      with body ol vi None show ?thesis
        by (auto simp: input_def)
    next
      case (Some l)
      with body ol vi have "f lower self [] False (print ''Please enter one of the options!''
          (w\<lparr>stdout := stdout w @ [''Your answer: ''], stdin := stl (stdin w)\<rparr>)) = Some y"
        by (simp add: input_def)
      from IH [OF this] have "fst y = Raised EOFError \<and> None \<in> sset (stl (stdin w))"
        by simp
      then show ?thesis
        by (auto dest: stl_sset)
    qed
  qed
  then show ?thesis by simp
qed

subsection \<open>The presentation\<close>

lemma update_fresh:
  "k \<notin> fst ` set al \<Longrightarrow> AList.update k v al = al @ [(k, v)]"
  by (induction al) auto

lemma fold_update_fresh:
  "distinct (map fst kvs) \<Longrightarrow> fst ` set kvs \<inter> fst ` set al = {} \<Longrightarrow>
     fold (\<lambda>(k, v) al. AList.update k v al) kvs al = al @ kvs"
proof (induction kvs arbitrary: al)
  case Nil
  then show ?case by simp
next
  case (Cons kv kvs)
  obtain k v where kv: "kv = (k, v)" by (cases kv)
  have fresh: "k \<notin> fst ` set al"
    using Cons.prems(2) kv by auto
  have "fold (\<lambda>(k, v) al. AList.update k v al) kvs (al @ [(k, v)]) = (al @ [(k, v)]) @ kvs"
  proof (rule Cons.IH)
    show "distinct (map fst kvs)"
      using Cons.prems(1) by simp
    show "fst ` set kvs \<inter> fst ` set (al @ [(k, v)]) = {}"
      using Cons.prems kv by auto
  qed
  then show ?case
    by (simp add: kv update_fresh [OF fresh])
qed

lemma distinct_letters: "distinct letters"
  by code_simp

lemma length_letters: "length letters = 26"
  by (simp add: letters_def ascii_lowercase_def)

lemma letters_codes: "letters = map (\<lambda>i. [char_of (97 + i)]) [0..<26]"
  by code_simp

lemma build_option_list_zip: "build_option_list all_options = zip letters all_options"
proof -
  have "distinct (map fst (zip letters all_options))"
    by (simp add: map_fst_zip_take distinct_letters)
  then show ?thesis
    unfolding build_option_list_def by (simp add: fold_update_fresh)
qed

lemma present_option_list:
  "fst (present sh self w) =
     zip letters (fst (sh (heap w (answers self) @ heap w (wrong_answers self)) (rng w)))"
  by (simp add: present_def new_list_def shuffle_in_place_def build_option_list_zip Let_def
      split: prod.splits)

lemma present_world:
  "stdin (snd (present sh self w)) = stdin w"
  "stdout (snd (present sh self w)) =
     stdout w @ [full_question_text (question self) (fst (present sh self w)) @ newline]"
  "next_ref (snd (present sh self w)) = Suc (next_ref w)"
  "r \<noteq> next_ref w \<Longrightarrow> heap (snd (present sh self w)) r = heap w r"
  by (simp_all add: present_def new_list_def shuffle_in_place_def Let_def split: prod.splits)

lemma MultiChoiceQuestion_ask_loop:
  "MultiChoiceQuestion_ask lower sh self w =
     (case ask_loop lower self (fst (present sh self w)) False (snd (present sh self w)) of
        None \<Rightarrow> None
      | Some (Returned r, w4) \<Rightarrow> Some (Inr r, w4)
      | Some (Raised e, w4) \<Rightarrow> Some (Inl e, w4)
      | Some (Fallthrough, w4) \<Rightarrow> Some (Inr 0, print ''How is this method still running?'' w4))"
  by (simp add: MultiChoiceQuestion_ask_def split: prod.splits)

lemma selected_option_None:
  "selected_option lower ol l = None \<longleftrightarrow>
     lower l \<notin> set (map fst ol) \<and> lower l \<notin> set (map lower (map snd ol))"
proof (cases "map_of ol (lower l)")
  case None
  then have sel: "selected_option lower ol l = find (\<lambda>option. lower option = lower l) (map snd ol)"
    by (simp add: selected_option_def)
  have "lower l \<notin> set (map fst ol)"
    using None by (simp add: map_of_eq_None_iff)
  then show ?thesis
    unfolding sel by (force simp: find_None_iff)
next
  case (Some opt)
  then have "lower l \<in> set (map fst ol)"
    by (force dest: map_of_SomeD)
  with Some show ?thesis
    by (simp add: selected_option_def)
qed

lemma selected_option_key:
  "lower l \<in> set (map fst ol) \<Longrightarrow> selected_option lower ol l = Some (the (map_of ol (lower l)))"
  by (auto simp: selected_option_def map_of_eq_None_iff image_iff split: option.splits)

lemma selected_option_text:
  assumes "lower l \<notin> set (map fst ol)" and "selected_option lower ol l = Some opt"
  shows "lower opt = lower l \<and> lower l \<in> set (map lower (map snd ol)) \<and> opt \<in> set (map snd ol)"
proof -
  have "map_of ol (lower l) = None"
    using assms(1) by (simp add: map_of_eq_None_iff)
  then have "find (\<lambda>option. lower option = lower l) (map snd ol) = Some opt"
    using assms(2) by (simp add: selected_option_def)
  then show ?thesis
    by (auto simp: find_Some_iff image_iff) (metis nth_mem snd_conv nth_map length_map)+
qed

subsection \<open>MultiChoiceQuestion.ask\<close>

lemma MultiChoiceQuestion_ask_resolved:
  assumes ol: "ol = fst (present sh self w)"
    and w3: "w3 = snd (present sh self w)"
    and inp: "stdin w = map Some bad @- (Some l ## rest)"
    and bad: "\<forall>b\<in>set bad. lower b \<notin> set (map fst ol) \<and> lower b \<notin> set (map lower (map snd ol))"
    and res: "lower l \<in> set (map fst ol) \<or> lower l \<in> set (map lower (map snd ol))"
    and correct: "correct =
      (if lower l \<in> set (map fst ol) then the (map_of ol (lower l)) \<in> set (heap w3 (answers self))
       else lower l \<in> set (map lower (heap w3 (answers self))))"
  shows "MultiChoiceQuestion_ask lower sh self w =
           Some (Inr (if correct then 1 else 0),
                 print (if correct then ''Correct!'' else ''Incorrect!'')
                   (w3\<lparr>stdout := stdout w3 @ reprompts (length bad) @ [''Your answer: ''],
                       stdin := rest\<rparr>))"
proof -
  let ?w = "w3\<lparr>stdout := stdout w3 @ reprompts (length bad), stdin := Some l ## rest\<rparr>"
  have "stdin w3 = map Some bad @- (Some l ## rest)"
    using inp by (simp add: w3 present_world)
  then have "ask_loop lower self ol False w3 = ask_loop lower self ol False ?w"
    using bad by (rule ask_loop_skip [rotated])
  also have "\<dots> = Some (Returned (if correct then 1 else 0),
                 print (if correct then ''Correct!'' else ''Incorrect!'')
                   (w3\<lparr>stdout := stdout w3 @ reprompts (length bad) @ [''Your answer: ''],
                       stdin := rest\<rparr>))"
    using res by (auto simp: ask_loop_line [of ?w l rest] correct Let_def)
  finally show ?thesis
    by (simp add: MultiChoiceQuestion_ask_loop ol [symmetric] w3 [symmetric])
qed

lemma MultiChoiceQuestion_ask_eof:
  assumes ol: "ol = fst (present sh self w)"
    and w3: "w3 = snd (present sh self w)"
    and inp: "stdin w = map Some bad @- (None ## rest)"
    and bad: "\<forall>b\<in>set bad. lower b \<notin> set (map fst ol) \<and> lower b \<notin> set (map lower (map snd ol))"
  shows "MultiChoiceQuestion_ask lower sh self w =
           Some (Inl EOFError,
                 w3\<lparr>stdout := stdout w3 @ reprompts (length bad) @ [''Your answer: ''],
                     stdin := rest\<rparr>)"
proof -
  let ?w = "w3\<lparr>stdout := stdout w3 @ reprompts (length bad), stdin := None ## rest\<rparr>"
  have "stdin w3 = map Some bad @- (None ## rest)"
    using inp by (simp add: w3 present_world)
  then have "ask_loop lower self ol False w3 = ask_loop lower self ol False ?w"
    using bad by (rule ask_loop_skip [rotated])
  also have "\<dots> = Some (Raised EOFError,
                      ?w\<lparr>stdout := stdout ?w @ [''Your answer: ''], stdin := stl (stdin ?w)\<rparr>)"
    by (rule ask_loop_eof) simp
  finally show ?thesis
    by (simp add: MultiChoiceQuestion_ask_loop ol [symmetric] w3 [symmetric])
qed

lemma resolved_selection_score:
  assumes alloc: "answers self < next_ref w"
    and ol: "option_list = fst (present sh self w)"
    and inp: "stdin w = map Some bad @- (Some user_answer ## rest)"
    and bad: "\<forall>b\<in>set bad. selected_option lower option_list b = None"
    and sel: "selected_option lower option_list user_answer = Some opt"
  shows "map_option fst (MultiChoiceQuestion_ask lower sh self w) =
     Some (Inr (if lower user_answer \<in> set (map fst option_list)
                then (if opt \<in> set (heap w (answers self)) then 1 else 0)
                else (if lower opt \<in> set (map lower (heap w (answers self))) then 1 else 0)))"
proof -
  define w3 where "w3 = snd (present sh self w)"
  define correct where "correct =
      (if lower user_answer \<in> set (map fst option_list)
       then the (map_of option_list (lower user_answer)) \<in> set (heap w3 (answers self))
       else lower user_answer \<in> set (map lower (heap w3 (answers self))))"
  have heap3: "heap w3 (answers self) = heap w (answers self)"
    using alloc by (simp add: w3_def present_world)
  have bad': "\<forall>b\<in>set bad. lower b \<notin> set (map fst option_list)
                \<and> lower b \<notin> set (map lower (map snd option_list))"
    using bad by (simp only: selected_option_None) 
  have res: "lower user_answer \<in> set (map fst option_list)
               \<or> lower user_answer \<in> set (map lower (map snd option_list))"
    using sel selected_option_None [of lower option_list user_answer] by auto
  have ask: "map_option fst (MultiChoiceQuestion_ask lower sh self w) = Some (Inr (if correct then 1 else 0))"
    by (simp add: MultiChoiceQuestion_ask_resolved [OF ol w3_def inp bad' res correct_def])
  show ?thesis
  proof (cases "lower user_answer \<in> set (map fst option_list)")
    case True
    have "the (map_of option_list (lower user_answer)) = opt"
      using sel True by (simp only: selected_option_key option.inject)
    then have "correct = (opt \<in> set (heap w (answers self)))"
      unfolding correct_def heap3 using True by (simp only: if_True)
    then show ?thesis
      unfolding ask using True by (simp only: if_True)
  next
    case False
    have "lower opt = lower user_answer"
      using selected_option_text [OF False sel] by (rule conjunct1)
    then have "correct = (lower opt \<in> set (map lower (heap w (answers self))))"
      unfolding correct_def heap3 using False by (simp only: if_False)
    then show ?thesis
      unfolding ask using False by (simp only: if_False)
  qed
qed

lemmas example_eval =
  present_option_list present_world keep_order_def reverse_order_def letters_def lower_eval
  selected_option_def

text \<open>
  C1, with the comparison each branch makes. When the lines read first select nothing and
  the next line selects an option, ask returns 1 or 0 as follows. If the line, lowercased, is a letter key, the
  result is 1 exactly when the selected option's text is itself an entry of the accepted
  answers (an exact comparison, case included). Otherwise the line matched an option's
  text, and the result is 1 exactly when the selected option's text, lowercased, equals
  some accepted answer, lowercased.
\<close>

theorem MultiChoiceQuestion_ask_score:
  assumes "answers self < next_ref w"
    and "option_list = fst (present sh self w)"
    and "stdin w = map Some bad @- (Some user_answer ## rest)"
    and "\<forall>b\<in>set bad. selected_option lower option_list b = None"
    and "selected_option lower option_list user_answer = Some opt"
  shows "map_option fst (MultiChoiceQuestion_ask lower sh self w) =
     Some (Inr (if lower user_answer \<in> set (map fst option_list)
                then (if opt \<in> set (heap w (answers self)) then 1 else 0)
                else (if lower opt \<in> set (map lower (heap w (answers self))) then 1 else 0)))"
  using assms by (rule resolved_selection_score)

theorem MultiChoiceQuestion_ask_score_witness:
  "map_option fst (MultiChoiceQuestion_ask ascii_lower reverse_order
       \<lparr>question = ''Pick A'', answers = 0, wrong_answers = 1\<rparr>
       (world_of [[''Apple''], [''Banana'']] (Some ''x'' ## Some ''APPLE'' ## sconst None)))
     = Some (Inr 1)
   \<and> map_option fst (MultiChoiceQuestion_ask ascii_lower reverse_order
       \<lparr>question = ''Pick A'', answers = 0, wrong_answers = 1\<rparr>
       (world_of [[''Apple''], [''Banana'']] (Some ''B'' ## sconst None)))
     = Some (Inr 1)
   \<and> map_option fst (MultiChoiceQuestion_ask ascii_lower reverse_order
       \<lparr>question = ''Pick A'', answers = 0, wrong_answers = 1\<rparr>
       (world_of [[''Apple''], [''Banana'']] (Some ''a'' ## sconst None)))
     = Some (Inr 0)
   \<and> map_option fst (MultiChoiceQuestion_ask accent_lower keep_order
       \<lparr>question = ''Pick'', answers = 0, wrong_answers = 1\<rparr>
       (world_of [[small_e_acute], [''x'']] (Some capital_e_acute ## Some ''b'' ## sconst None)))
     = Some (Inr 1)"
  using MultiChoiceQuestion_ask_score
      [of "\<lparr>question = ''Pick A'', answers = 0, wrong_answers = 1\<rparr>"
          "world_of [[''Apple''], [''Banana'']] (Some ''x'' ## Some ''APPLE'' ## sconst None)"
          "[(''a'', ''Banana''), (''b'', ''Apple'')]" reverse_order "[''x'']" "''APPLE''"
          "sconst None" ascii_lower "''Apple''"]
    MultiChoiceQuestion_ask_score
      [of "\<lparr>question = ''Pick A'', answers = 0, wrong_answers = 1\<rparr>"
          "world_of [[''Apple''], [''Banana'']] (Some ''B'' ## sconst None)"
          "[(''a'', ''Banana''), (''b'', ''Apple'')]" reverse_order "[]" "''B''"
          "sconst None" ascii_lower "''Apple''"]
    MultiChoiceQuestion_ask_score
      [of "\<lparr>question = ''Pick A'', answers = 0, wrong_answers = 1\<rparr>"
          "world_of [[''Apple''], [''Banana'']] (Some ''a'' ## sconst None)"
          "[(''a'', ''Banana''), (''b'', ''Apple'')]" reverse_order "[]" "''a''"
          "sconst None" ascii_lower "''Banana''"]
    MultiChoiceQuestion_ask_score
      [of "\<lparr>question = ''Pick'', answers = 0, wrong_answers = 1\<rparr>"
          "world_of [[small_e_acute], [''x'']]
             (Some capital_e_acute ## Some ''b'' ## sconst None)"
          "[(''a'', small_e_acute), (''b'', ''x'')]" keep_order "[]" capital_e_acute
          "Some ''b'' ## sconst None" accent_lower small_e_acute]
  by (simp add: example_eval)

text \<open>
  C1 as the specification states it, with a comparison that ignores case in both
  branches, fails where a wrong answer differs from an
  accepted answer in case only: with the accepted answer Apple and the wrong answer apple,
  the line b selects the option apple, whose text is an accepted answer when case is
  ignored, and ask returns 0.
\<close>

theorem MultiChoiceQuestion_ask_score_counterexample:
  "selected_option ascii_lower
       (fst (present keep_order \<lparr>question = ''Pick'', answers = 0, wrong_answers = 1\<rparr>
               (world_of [[''Apple''], [''apple'']] (Some ''b'' ## sconst None)))) ''b''
     = Some ''apple''
   \<and> ascii_lower ''apple'' \<in> set (map ascii_lower
         (heap (world_of [[''Apple''], [''apple'']] (Some ''b'' ## sconst None))
            (answers \<lparr>question = ''Pick'', answers = 0, wrong_answers = 1\<rparr>)))
   \<and> map_option fst (MultiChoiceQuestion_ask ascii_lower keep_order
         \<lparr>question = ''Pick'', answers = 0, wrong_answers = 1\<rparr>
         (world_of [[''Apple''], [''apple'']] (Some ''b'' ## sconst None)))
     = Some (Inr 0)"
  using resolved_selection_score
      [of "\<lparr>question = ''Pick'', answers = 0, wrong_answers = 1\<rparr>"
          "world_of [[''Apple''], [''apple'']] (Some ''b'' ## sconst None)"
          "[(''a'', ''Apple''), (''b'', ''apple'')]" keep_order "[]" "''b''"
          "sconst None" ascii_lower "''apple''"]
  by (simp add: example_eval)

text \<open>
  C7. When the line read, lowercased, is a letter key and also matches the text of a
  presented option without regard to case, the selection is the option mapped to the
  letter, and the score is decided by that option: 1 exactly when it is an entry of the
  accepted answers.
\<close>

theorem letter_key_takes_priority:
  assumes "answers self < next_ref w"
    and "option_list = fst (present sh self w)"
    and "stdin w = Some user_answer ## rest"
    and "lower user_answer \<in> set (map fst option_list)"
    and "lower user_answer \<in> set (map lower (map snd option_list))"
  shows "selected_option lower option_list user_answer = map_of option_list (lower user_answer)
       \<and> map_option fst (MultiChoiceQuestion_ask lower sh self w) =
           Some (Inr (if the (map_of option_list (lower user_answer)) \<in> set (heap w (answers self))
                      then 1 else 0))"
proof -
  have key: "selected_option lower option_list user_answer
               = Some (the (map_of option_list (lower user_answer)))"
    using assms(4) by (rule selected_option_key)
  have "map_of option_list (lower user_answer) \<noteq> None"
    using assms(4) by (simp add: map_of_eq_None_iff)
  then have sel: "selected_option lower option_list user_answer = map_of option_list (lower user_answer)"
    using key by auto
  have inp: "stdin w = map Some [] @- (Some user_answer ## rest)"
    using assms(3) by simp
  have "map_option fst (MultiChoiceQuestion_ask lower sh self w) =
           Some (Inr (if the (map_of option_list (lower user_answer)) \<in> set (heap w (answers self))
                      then 1 else 0))"
    using resolved_selection_score [OF assms(1,2) inp _ key] assms(4)
    by simp
  with sel show ?thesis by simp
qed

theorem letter_key_takes_priority_witness:
  "selected_option ascii_lower
       (fst (present keep_order \<lparr>question = ''Pick'', answers = 0, wrong_answers = 1\<rparr>
               (world_of [[''b''], [''a'']] (Some ''A'' ## sconst None)))) ''A''
     = Some ''b''
   \<and> map_option fst (MultiChoiceQuestion_ask ascii_lower keep_order
         \<lparr>question = ''Pick'', answers = 0, wrong_answers = 1\<rparr>
         (world_of [[''b''], [''a'']] (Some ''A'' ## sconst None)))
     = Some (Inr 1)"
  using letter_key_takes_priority
      [of "\<lparr>question = ''Pick'', answers = 0, wrong_answers = 1\<rparr>"
          "world_of [[''b''], [''a'']] (Some ''A'' ## sconst None)"
          "[(''a'', ''b''), (''b'', ''a'')]" keep_order "''A''" "sconst None" ascii_lower]
  by (simp add: example_eval)

lemma shuffle_length:
  assumes "is_shuffle sh"
  shows "length (fst (sh xs g)) = length xs"
proof -
  have "mset (fst (sh xs g)) = mset xs"
    using assms by (simp add: is_shuffle_def)
  then show ?thesis
    by (rule mset_eq_length)
qed

lemma letters_nth:
  assumes "i < 26"
  shows "letters ! i = [char_of (97 + i)]"
proof -
  have "letters ! i = map (\<lambda>i. [char_of (97 + i)]) [0..<26] ! i"
    by (simp only: letters_codes [symmetric])
  also have "\<dots> = [char_of (97 + i)]"
    using assms by (simp only: nth_map_upt) simp
  finally show ?thesis .
qed

text \<open>
  C6. For a question with at most 26 options in all and any permutation the shuffle
  produces, ask presents as many lettered options as the two lists have entries; the
  letters are distinct, the option at position \<open>i\<close> has the letter with code
  \<open>97 + i\<close> (a, b, c, \<dots> with no gap), and the options are those of the two lists.
  The call writes the question followed by one line per option, in that order, before
  anything else: when a line of the input selects an option, or the input ends, after
  lines that select nothing, the call ends and has written exactly the presentation, one
  request per line that selected nothing, and the last prompt with its verdict.
\<close>

theorem ask_presents_lettered_options:
  assumes "is_shuffle sh"
    and "n = length (heap w (answers self)) + length (heap w (wrong_answers self))"
    and "n \<le> 26"
    and "option_list = fst (present sh self w)"
    and "presentation =
           (question self @ newline @ join newline (map format_option option_list)) @ newline"
  shows "length option_list = n
       \<and> map fst option_list = take n letters
       \<and> distinct (map fst option_list)
       \<and> (\<forall>i<n. fst (option_list ! i) = [char_of (97 + i)])
       \<and> mset (map snd option_list) = mset (heap w (answers self) @ heap w (wrong_answers self))
       \<and> (\<forall>i<n. map format_option option_list ! i
                  = [char_of (97 + i)] @ '') '' @ snd (option_list ! i))
       \<and> (\<forall>bad l rest.
             stdin w = map Some bad @- (Some l ## rest) \<longrightarrow>
             (\<forall>b\<in>set bad. selected_option lower option_list b = None) \<longrightarrow>
             selected_option lower option_list l \<noteq> None \<longrightarrow>
             map_option (stdout \<circ> snd) (MultiChoiceQuestion_ask lower sh self w) =
               Some (stdout w @ [presentation] @ reprompts (length bad) @
                     [''Your answer: '',
                      (if map_option fst (MultiChoiceQuestion_ask lower sh self w) = Some (Inr 1)
                       then ''Correct!'' else ''Incorrect!'') @ newline]))
       \<and> (\<forall>bad rest.
             stdin w = map Some bad @- (None ## rest) \<longrightarrow>
             (\<forall>b\<in>set bad. selected_option lower option_list b = None) \<longrightarrow>
             map_option (stdout \<circ> snd) (MultiChoiceQuestion_ask lower sh self w) =
               Some (stdout w @ [presentation] @ reprompts (length bad) @ [''Your answer: '']))
       \<and> (\<forall>y. MultiChoiceQuestion_ask lower sh self w = Some y \<longrightarrow>
             (\<exists>written. stdout (snd y) = stdout w @ [presentation] @ written))"
proof -
  define all_options where
    "all_options = fst (sh (heap w (answers self) @ heap w (wrong_answers self)) (rng w))"
  define w3 where "w3 = snd (present sh self w)"
  have ol: "option_list = zip letters all_options"
    by (simp add: assms(4) present_option_list all_options_def)
  have len_all: "length all_options = n"
    by (simp add: all_options_def shuffle_length [OF assms(1)] assms(2))
  have len: "length option_list = n"
    using assms(3) by (simp add: ol len_all length_letters)
  have keys: "map fst option_list = take n letters"
    using assms(3) by (simp add: ol map_fst_zip_take len_all length_letters)
  have vals: "map snd option_list = all_options"
    using assms(3) by (simp add: ol map_snd_zip_take len_all length_letters)
  have dist: "distinct (map fst option_list)"
    by (simp add: keys distinct_letters)
  have nth: "fst (option_list ! i) = [char_of (97 + i)]" if "i < n" for i
  proof -
    have "fst (option_list ! i) = map fst option_list ! i"
      using that len by simp
    also have "\<dots> = letters ! i"
      using that by (simp add: keys)
    also have "\<dots> = [char_of (97 + i)]"
      using that assms(3) by (intro letters_nth) simp
    finally show ?thesis .
  qed
  have perm: "mset (map snd option_list) = mset (heap w (answers self) @ heap w (wrong_answers self))"
    using assms(1) unfolding vals all_options_def is_shuffle_def by blast
  have out: "stdout w3 = stdout w @ [presentation]"
    by (simp add: w3_def present_world full_question_text_def assms(4,5))
  have line: "map format_option option_list ! i
                  = [char_of (97 + i)] @ '') '' @ snd (option_list ! i)" if "i < n" for i
    using that len nth [OF that] by (simp add: format_option_def)
  have selects: "map_option (stdout \<circ> snd) (MultiChoiceQuestion_ask lower sh self w) =
               Some (stdout w @ [presentation] @ reprompts (length bad) @
                     [''Your answer: '',
                      (if map_option fst (MultiChoiceQuestion_ask lower sh self w) = Some (Inr 1)
                       then ''Correct!'' else ''Incorrect!'') @ newline])"
    if inp: "stdin w = map Some bad @- (Some l ## rest)"
      and bad: "\<forall>b\<in>set bad. selected_option lower option_list b = None"
      and sel: "selected_option lower option_list l \<noteq> None"
    for bad l rest
  proof -
    define correct where "correct =
      (if lower l \<in> set (map fst option_list)
       then the (map_of option_list (lower l)) \<in> set (heap w3 (answers self))
       else lower l \<in> set (map lower (heap w3 (answers self))))"
    have bad': "\<forall>b\<in>set bad. lower b \<notin> set (map fst option_list)
                  \<and> lower b \<notin> set (map lower (map snd option_list))"
      using bad by (simp only: selected_option_None)
    have res: "lower l \<in> set (map fst option_list)
                 \<or> lower l \<in> set (map lower (map snd option_list))"
      using sel selected_option_None [of lower option_list l] by auto
    note run = MultiChoiceQuestion_ask_resolved [OF assms(4) w3_def inp bad' res correct_def]
    show ?thesis
      unfolding run by (cases correct) (simp_all add: out)
  qed
  have ends: "map_option (stdout \<circ> snd) (MultiChoiceQuestion_ask lower sh self w) =
               Some (stdout w @ [presentation] @ reprompts (length bad) @ [''Your answer: ''])"
    if inp: "stdin w = map Some bad @- (None ## rest)"
      and bad: "\<forall>b\<in>set bad. selected_option lower option_list b = None"
    for bad rest
  proof -
    have bad': "\<forall>b\<in>set bad. lower b \<notin> set (map fst option_list)
                  \<and> lower b \<notin> set (map lower (map snd option_list))"
      using bad by (simp only: selected_option_None)
    show ?thesis
      unfolding MultiChoiceQuestion_ask_eof [OF assms(4) w3_def inp bad']
      by (simp add: out)
  qed
  have later: "\<exists>written. stdout (snd y) = stdout w @ [presentation] @ written"
    if run: "MultiChoiceQuestion_ask lower sh self w = Some y" for y
  proof -
    obtain z where z: "ask_loop lower self (fst (present sh self w)) False w3 = Some z"
      and y: "snd y = snd z \<or> snd y = print ''How is this method still running?'' (snd z)"
      using run unfolding MultiChoiceQuestion_ask_loop w3_def
      by (auto split: option.splits prod.splits flow.splits)
    from ask_loop_stdout [OF z] y show ?thesis
      by (auto simp: out)
  qed
  from len keys dist nth perm line selects ends later show ?thesis
    by blast
qed

theorem ask_presents_lettered_options_witness:
  "fst (present reverse_order \<lparr>question = ''Pick A'', answers = 0, wrong_answers = 1\<rparr>
          (world_of [[''Apple''], [''Banana'']] (Some ''x'' ## Some ''APPLE'' ## sconst None)))
     = [(''a'', ''Banana''), (''b'', ''Apple'')]
   \<and> map_option (stdout \<circ> snd)
       (MultiChoiceQuestion_ask ascii_lower reverse_order
          \<lparr>question = ''Pick A'', answers = 0, wrong_answers = 1\<rparr>
          (world_of [[''Apple''], [''Banana'']] (Some ''x'' ## Some ''APPLE'' ## sconst None)))
     = Some [''Pick A'' @ newline @ ''a) Banana'' @ newline @ ''b) Apple'' @ newline,
             ''Your answer: '', ''Please enter one of the options!'' @ newline,
             ''Your answer: '', ''Correct!'' @ newline]
   \<and> map_option (stdout \<circ> snd)
       (MultiChoiceQuestion_ask ascii_lower reverse_order
          \<lparr>question = ''Pick A'', answers = 0, wrong_answers = 1\<rparr>
          (world_of [[''Apple''], [''Banana'']] (Some ''x'' ## None ## sconst None)))
     = Some [''Pick A'' @ newline @ ''a) Banana'' @ newline @ ''b) Apple'' @ newline,
             ''Your answer: '', ''Please enter one of the options!'' @ newline,
             ''Your answer: '']"
proof -
  let ?q = "\<lparr>question = ''Pick A'', answers = 0, wrong_answers = 1\<rparr>"
  let ?w = "world_of [[''Apple''], [''Banana'']] (Some ''x'' ## Some ''APPLE'' ## sconst None)"
  let ?v = "world_of [[''Apple''], [''Banana'']] (Some ''x'' ## None ## sconst None)"
  let ?ol = "[(''a'', ''Banana''), (''b'', ''Apple'')]"
  let ?text = "(''Pick A'' @ newline @ join newline (map format_option ?ol)) @ newline"
  have ol: "?ol = fst (present reverse_order ?q ?w)" "?ol = fst (present reverse_order ?q ?v)"
    by (simp_all add: example_eval)
  have n: "2 = length (heap ?w (answers ?q)) + length (heap ?w (wrong_answers ?q))"
    "2 = length (heap ?v (answers ?q)) + length (heap ?v (wrong_answers ?q))"
    "(2::nat) \<le> 26"
    by simp_all
  have shown: "?text = (question ?q @ newline @ join newline (map format_option ?ol)) @ newline"
    by simp
  have x: "\<forall>b\<in>set [''x'']. selected_option ascii_lower ?ol b = None"
    by (simp add: example_eval)
  have apple: "selected_option ascii_lower ?ol ''APPLE'' \<noteq> None"
    by (simp add: example_eval)
  have w: "stdin ?w = map Some [''x''] @- (Some ''APPLE'' ## sconst None)"
    and v: "stdin ?v = map Some [''x''] @- (None ## sconst None)"
    by simp_all
  have score: "map_option fst (MultiChoiceQuestion_ask ascii_lower reverse_order ?q ?w)
                 = Some (Inr 1)"
    using resolved_selection_score
      [where self = ?q and w = ?w and option_list = ?ol and sh = reverse_order
         and bad = "[''x'']" and user_answer = "''APPLE''" and rest = "sconst None"
         and lower = ascii_lower and opt = "''Apple''"]
    by (simp add: example_eval)
  note selects = ask_presents_lettered_options
      [OF is_shuffle_reverse_order n(1) n(3) ol(1) shown, where lower = ascii_lower,
       THEN conjunct2, THEN conjunct2, THEN conjunct2, THEN conjunct2, THEN conjunct2,
       THEN conjunct2, THEN conjunct1, rule_format, OF w x [rule_format] apple]
  note ends = ask_presents_lettered_options
      [OF is_shuffle_reverse_order n(2) n(3) ol(2) shown, where lower = ascii_lower,
       THEN conjunct2, THEN conjunct2, THEN conjunct2, THEN conjunct2, THEN conjunct2,
       THEN conjunct2, THEN conjunct2, THEN conjunct1, rule_format, OF v x [rule_format]]
  have a: "stdout ?w @ [?text] @ reprompts (length [''x'']) @
             [''Your answer: '', (if Some (Inr 1 :: error + int) = Some (Inr 1)
                                  then ''Correct!'' else ''Incorrect!'') @ newline]
         = [''Pick A'' @ newline @ ''a) Banana'' @ newline @ ''b) Apple'' @ newline,
             ''Your answer: '', ''Please enter one of the options!'' @ newline,
             ''Your answer: '', ''Correct!'' @ newline]"
    by (simp add: reprompts_def format_option_def)
  have b: "stdout ?v @ [?text] @ reprompts (length [''x'']) @ [''Your answer: '']
         = [''Pick A'' @ newline @ ''a) Banana'' @ newline @ ''b) Apple'' @ newline,
             ''Your answer: '', ''Please enter one of the options!'' @ newline,
             ''Your answer: '']"
    by (simp add: reprompts_def format_option_def)
  show ?thesis
    using selects ends unfolding score a b ol(1) [symmetric] by (intro conjI refl) 
qed

text \<open>
  C8. A call to ask leaves the stored lists as they were. Question.ask changes no list
  object at all. MultiChoiceQuestion.ask changes no list object that existed before the
  call, so the lists of accepted and of wrong answers are the same afterwards: the list
  that is shuffled is a new object. (The fields themselves, a string and two references,
  are never assigned to.)
\<close>

theorem ask_leaves_stored_lists:
  assumes "answers self < next_ref w"
    and "wrong_answers self < next_ref w"
    and "MultiChoiceQuestion_ask lower sh self w = Some y"
  shows "heap (snd (Question_ask lower q w)) = heap w
       \<and> heap (snd y) (answers self) = heap w (answers self)
       \<and> heap (snd y) (wrong_answers self) = heap w (wrong_answers self)
       \<and> (\<forall>r<next_ref w. heap (snd y) r = heap w r)
       \<and> (\<forall>r<next_ref w. heap (snd (present sh self w)) r = heap w r)"
proof -
  have q: "heap (snd (Question_ask lower q w)) = heap w"
    by (simp add: Question_ask_def input_def Let_def split: option.splits)
  obtain z where z: "ask_loop lower self (fst (present sh self w)) False (snd (present sh self w)) = Some z"
    and y: "heap (snd y) = heap (snd z)"
    using assms(3) unfolding MultiChoiceQuestion_ask_loop
    by (auto split: option.splits prod.splits flow.splits)
  have "heap (snd z) = heap (snd (present sh self w))"
    using ask_loop_frame [OF z] by simp
  with y have eq: "heap (snd y) = heap (snd (present sh self w))"
    by simp
  have old: "heap (snd (present sh self w)) r = heap w r" if "r < next_ref w" for r
    using that by (simp add: present_world)
  from q eq old assms(1,2) show ?thesis
    by simp
qed

theorem ask_leaves_stored_lists_witness:
  "heap (snd (the (MultiChoiceQuestion_ask ascii_lower reverse_order
       \<lparr>question = ''Pick A'', answers = 0, wrong_answers = 1\<rparr>
       (world_of [[''Apple''], [''Banana'']] (Some ''a'' ## sconst None))))) 0 = [''Apple'']
   \<and> heap (snd (the (MultiChoiceQuestion_ask ascii_lower reverse_order
       \<lparr>question = ''Pick A'', answers = 0, wrong_answers = 1\<rparr>
       (world_of [[''Apple''], [''Banana'']] (Some ''a'' ## sconst None))))) 1 = [''Banana'']"
proof -
  let ?q = "\<lparr>question = ''Pick A'', answers = 0, wrong_answers = 1\<rparr>"
  let ?w = "world_of [[''Apple''], [''Banana'']] (Some ''a'' ## sconst None)"
  have "\<exists>y. MultiChoiceQuestion_ask ascii_lower reverse_order ?q ?w = Some y"
    using MultiChoiceQuestion_ask_resolved [OF refl refl _ _ _ refl,
       where bad = "[]" and l = "''a''" and rest = "sconst None" and sh = reverse_order
         and self = ?q and w = ?w and lower = ascii_lower]
    by (simp add: example_eval)
  then have run: "MultiChoiceQuestion_ask ascii_lower reverse_order ?q ?w
                    = Some (the (MultiChoiceQuestion_ask ascii_lower reverse_order ?q ?w))"
    by auto
  show ?thesis
    using ask_leaves_stored_lists [OF _ _ run, of "\<lparr>question = ''Pick A'', answers = 0\<rparr>"]
    by simp
qed

lemma no_options_option_list:
  assumes "is_shuffle sh"
    and "heap w (answers self) = []"
    and "heap w (wrong_answers self) = []"
  shows "fst (present sh self w) = []"
proof -
  have "length (fst (sh [] (rng w))) = 0"
    using shuffle_length [OF assms(1), of "[]" "rng w"] by simp
  then show ?thesis
    by (simp add: present_option_list assms(2,3))
qed

lemma no_options_eof:
  assumes "is_shuffle sh"
    and "heap w (answers self) = []"
    and "heap w (wrong_answers self) = []"
    and "stdin w = map Some ls @- (None ## s)"
  shows "\<exists>w'. MultiChoiceQuestion_ask lower sh self w = Some (Inl EOFError, w')
             \<and> stdout w' = stdout w @ [question self @ newline @ newline]
                             @ reprompts (length ls) @ [''Your answer: '']"
proof -
  have ol: "[] = fst (present sh self w)"
    using no_options_option_list [OF assms(1,2,3)] by simp
  have bad: "\<forall>b\<in>set ls. lower b \<notin> set (map fst ([] :: (string \<times> string) list))
               \<and> lower b \<notin> set (map lower (map snd ([] :: (string \<times> string) list)))"
    by simp
  show ?thesis
    unfolding MultiChoiceQuestion_ask_eof [OF ol refl assms(4) bad]
    by (simp add: present_world ol [symmetric] full_question_text_def)
qed

text \<open>
  C9, with the end of the input taken into account. With both answer lists empty, ask
  never returns a value: no line of input can select anything. On an input that never
  ends the call does not terminate; on an input that ends after some lines, each of them
  has been answered by the request to enter one of the options, and the call is left by
  the end-of-file error that \<^verbatim>\<open>input\<close> raises.
\<close>

theorem no_options_never_returns:
  assumes "is_shuffle sh"
    and "heap w (answers self) = []"
    and "heap w (wrong_answers self) = []"
  shows "(\<forall>r w'. MultiChoiceQuestion_ask lower sh self w \<noteq> Some (Inr r, w'))
       \<and> (None \<notin> sset (stdin w) \<longrightarrow> MultiChoiceQuestion_ask lower sh self w = None)
       \<and> (\<forall>ls s. stdin w = map Some ls @- (None ## s) \<longrightarrow>
            (\<exists>w'. MultiChoiceQuestion_ask lower sh self w = Some (Inl EOFError, w')
                 \<and> stdout w' = stdout w @ [question self @ newline @ newline]
                                 @ reprompts (length ls) @ [''Your answer: '']))"
proof -
  let ?w3 = "snd (present sh self w)"
  have ol: "fst (present sh self w) = []"
    using assms by (rule no_options_option_list)
  have ask: "MultiChoiceQuestion_ask lower sh self w =
     (case ask_loop lower self [] False ?w3 of
        None \<Rightarrow> None
      | Some (Returned r, w4) \<Rightarrow> Some (Inr r, w4)
      | Some (Raised e, w4) \<Rightarrow> Some (Inl e, w4)
      | Some (Fallthrough, w4) \<Rightarrow> Some (Inr 0, print ''How is this method still running?'' w4))"
    by (simp only: MultiChoiceQuestion_ask_loop ol)
  have loop: "fst z = Raised EOFError \<and> None \<in> sset (stdin w)"
    if "ask_loop lower self [] False ?w3 = Some z" for z
    using ask_loop_empty [OF that] by (simp add: present_world)
  have never: "MultiChoiceQuestion_ask lower sh self w \<noteq> Some (Inr r, w')" for r w'
    unfolding ask using loop by (auto split: option.splits prod.splits flow.splits)
  have diverges: "MultiChoiceQuestion_ask lower sh self w = None" if "None \<notin> sset (stdin w)"
  proof (cases "ask_loop lower self [] False ?w3")
    case None
    then show ?thesis by (simp add: ask)
  next
    case (Some z)
    with loop that show ?thesis by blast
  qed
  have eof: "\<exists>w'. MultiChoiceQuestion_ask lower sh self w = Some (Inl EOFError, w')
                 \<and> stdout w' = stdout w @ [question self @ newline @ newline]
                                 @ reprompts (length ls) @ [''Your answer: '']"
    if "stdin w = map Some ls @- (None ## s)" for ls s
    using assms that by (rule no_options_eof)
  from never diverges eof show ?thesis
    by blast
qed

theorem no_options_never_returns_witness:
  "MultiChoiceQuestion_ask ascii_lower keep_order \<lparr>question = ''Pick'', answers = 0, wrong_answers = 1\<rparr>
       (world_of [[], []] (sconst (Some ''a''))) = None
   \<and> (\<exists>w'. MultiChoiceQuestion_ask ascii_lower keep_order \<lparr>question = ''Pick'', answers = 0, wrong_answers = 1\<rparr>
              (world_of [[], []] (Some ''a'' ## Some ''b'' ## None ## sconst None))
            = Some (Inl EOFError, w')
          \<and> stdout w' = [''Pick'' @ newline @ newline,
               ''Your answer: '', ''Please enter one of the options!'' @ newline,
               ''Your answer: '', ''Please enter one of the options!'' @ newline,
               ''Your answer: ''])"
  using no_options_never_returns
      [OF is_shuffle_keep_order, where w = "world_of [[], []] (sconst (Some ''a''))"
         and self = "\<lparr>question = ''Pick'', answers = 0, wrong_answers = 1\<rparr>"
         and lower = ascii_lower]
    no_options_never_returns
      [OF is_shuffle_keep_order,
       where w = "world_of [[], []] (Some ''a'' ## Some ''b'' ## None ## sconst None)"
         and self = "\<lparr>question = ''Pick'', answers = 0, wrong_answers = 1\<rparr>"
         and lower = ascii_lower,
       THEN conjunct2, THEN conjunct2, THEN spec, THEN spec, of "[''a'', ''b'']" "sconst None"]
  by (simp add: reprompts_def)

text \<open>
  C9 as the specification states it, with the request repeated forever for every input
  sequence, fails on an input that ends: with the single line a and then the end of the
  input, the call ends after one request, by the end-of-file error.
\<close>

theorem no_options_never_returns_counterexample:
  "map_option fst
     (MultiChoiceQuestion_ask ascii_lower keep_order
        \<lparr>question = ''Pick'', answers = 0, wrong_answers = 1\<rparr>
        (world_of [[], []] (Some ''a'' ## None ## sconst None)))
     = Some (Inl EOFError)
   \<and> map_option (stdout \<circ> snd)
     (MultiChoiceQuestion_ask ascii_lower keep_order
        \<lparr>question = ''Pick'', answers = 0, wrong_answers = 1\<rparr>
        (world_of [[], []] (Some ''a'' ## None ## sconst None)))
     = Some [''Pick'' @ newline @ newline,
             ''Your answer: '', ''Please enter one of the options!'' @ newline,
             ''Your answer: '']"
  using no_options_eof
      [OF is_shuffle_keep_order,
       where w = "world_of [[], []] (Some ''a'' ## None ## sconst None)"
         and self = "\<lparr>question = ''Pick'', answers = 0, wrong_answers = 1\<rparr>"
         and lower = ascii_lower and ls = "[''a'']" and s = "sconst None"]
  by (auto simp: reprompts_def)

text \<open>
  C10. The loop, entered as ask enters it (with \<^verbatim>\<open>valid_input\<close> false), never ends by
  reaching its end: it returns, raises, or runs forever. So the statements after it are
  never executed, and ask is the same whatever stands there.
\<close>

theorem statements_after_loop_unreachable:
  "ask_loop lower self option_list False w \<noteq> Some (Fallthrough, w')
   \<and> MultiChoiceQuestion_ask lower sh self w =
       (case ask_loop lower self (fst (present sh self w)) False (snd (present sh self w)) of
          None \<Rightarrow> None
        | Some (Returned r, w4) \<Rightarrow> Some (Inr r, w4)
        | Some (Raised e, w4) \<Rightarrow> Some (Inl e, w4)
        | Some (Fallthrough, w4) \<Rightarrow> after w4)"
proof -
  have no: "ask_loop lower self ol False w \<noteq> Some (Fallthrough, w')" for self ol and w w' :: "'a world"
    using ask_loop_flow [of lower self ol False w "(Fallthrough, w')"] by auto
  then show ?thesis
    unfolding MultiChoiceQuestion_ask_loop
    by (auto split: option.splits prod.splits flow.splits)
qed

theorem statements_after_loop_unreachable_witness:
  "ask_loop ascii_lower \<lparr>question = ''Pick'', answers = 0, wrong_answers = 1\<rparr> [(''a'', ''x'')] False
       (world_of [[''x''], []] (Some ''a'' ## sconst None))
     \<noteq> Some (Fallthrough, world_of [[''x''], []] (sconst None))"
  using statements_after_loop_unreachable
      [of ascii_lower "\<lparr>question = ''Pick'', answers = 0, wrong_answers = 1\<rparr>"
          "[(''a'', ''x'')]" "world_of [[''x''], []] (Some ''a'' ## sconst None)"
          "world_of [[''x''], []] (sconst None)"]
  by simp

subsection \<open>run_quiz\<close>

text \<open>
  C4. run_quiz on an empty list of questions raises the error (a \<^verbatim>\<open>ValueError\<close>) and
  leaves the world as it was: nothing is written and nothing is read.
\<close>

theorem run_quiz_empty:
  "run_quiz lower sh [] score_per_question question_separator first_question_num w =
     Some (Inl (ValueError ''A quiz needs to have questions!''), w)"
  by (simp add: run_quiz_def)

lemma ask_result:
  assumes "ask lower sh q w = Some (Inr r, w')"
  shows "r = 0 \<or> r = 1"
proof (cases q)
  case (Free fq)
  with assms show ?thesis
    by (auto simp: Question_ask_def input_def Let_def split: option.splits if_splits)
next
  case (Multi mq)
  with assms have run: "MultiChoiceQuestion_ask lower sh mq w = Some (Inr r, w')"
    by simp
  then obtain z where z: "ask_loop lower mq (fst (present sh mq w)) False (snd (present sh mq w)) = Some z"
    and r: "fst z = Returned r \<or> (fst z = Fallthrough \<and> r = 0)"
    unfolding MultiChoiceQuestion_ask_loop
    by (auto split: option.splits prod.splits flow.splits)
  from ask_loop_flow [OF z] r show ?thesis
    by auto
qed

lemma ask_in_order_results:
  "ask_in_order lower sh sep fqn i qs w = Some (Inr rs, w') \<Longrightarrow>
     length rs = length qs \<and> set rs \<subseteq> {0, 1}"
proof (induction qs arbitrary: i w rs)
  case Nil
  then show ?case by simp
next
  case (Cons q qs)
  let ?w = "print sep (print (''Question '' @ str_int (int i + fqn)) (print sep w))"
  from Cons.prems obtain r w1 rs1 where
    a: "ask lower sh q ?w = Some (Inr r, w1)" and
    b: "ask_in_order lower sh sep fqn (Suc i) qs w1 = Some (Inr rs1, w')" and
    c: "rs = r # rs1"
    by (auto split: option.splits prod.splits sum.splits)
  from Cons.IH [OF b] ask_result [OF a] c show ?case
    by auto
qed

lemma run_loop_ask_in_order:
  "run_loop lower sh qs sep fqn i score w =
     (case ask_in_order lower sh sep fqn i (drop i qs) w of
        None \<Rightarrow> None
      | Some (Inl e, w') \<Rightarrow> Some (Inl e, w')
      | Some (Inr rs, w') \<Rightarrow> Some (Inr (score + sum_list rs), w'))"
proof (induction "length qs - i" arbitrary: i score w)
  case 0
  then show ?case
    by (subst run_loop.simps) simp
next
  case (Suc n)
  then have i: "i < length qs" and n: "n = length qs - Suc i"
    by simp_all
  have d: "drop i qs = qs ! i # drop (Suc i) qs"
    using i by (simp add: Cons_nth_drop_Suc)
  note IH = Suc.hyps(1) [OF n]
  show ?case
    by (subst run_loop.simps)
       (simp add: i d Let_def IH split: option.splits prod.splits sum.splits)
qed


lemma str_int_examples:
  "str_int 1 = ''1''" "str_int 2 = ''2''" "str_int 0 = ''0''" "str_int (- 3) = ''-3''"
  "str_int 27 = ''27''"
  by code_simp+

text \<open>
  C5. For a non-empty list of questions, run_quiz asks the questions in the order of the
  list, the question at index \<open>i\<close> under the number \<open>i + first_question_num\<close>, and
  returns the sum of the results of the calls to ask, each of which is 0 or 1; the score
  written at the end is the value returned. The parameter \<^verbatim>\<open>score_per_question\<close> has no
  effect.
\<close>

theorem run_quiz_sum_in_order:
  assumes "questions \<noteq> []"
  shows "run_quiz lower sh questions score_per_question sep fqn w =
           (case ask_in_order lower sh sep fqn 0 questions w of
              None \<Rightarrow> None
            | Some (Inl e, w') \<Rightarrow> Some (Inl e, w')
            | Some (Inr rs, w') \<Rightarrow>
                Some (Inr (sum_list rs),
                      print sep (print (''Your score: '' @ str_int (sum_list rs)) (print sep w'))))
       \<and> (\<forall>rs w'. ask_in_order lower sh sep fqn 0 questions w = Some (Inr rs, w') \<longrightarrow>
             length rs = length questions \<and> set rs \<subseteq> {0, 1})
       \<and> run_quiz lower sh questions score_per_question sep fqn w = run_quiz lower sh questions 1 sep fqn w"
proof -
  have run: "run_quiz lower sh questions spq sep fqn w =
           (case ask_in_order lower sh sep fqn 0 questions w of
              None \<Rightarrow> None
            | Some (Inl e, w') \<Rightarrow> Some (Inl e, w')
            | Some (Inr rs, w') \<Rightarrow>
                Some (Inr (sum_list rs),
                      print sep (print (''Your score: '' @ str_int (sum_list rs)) (print sep w'))))"
    for spq
    using assms
    by (simp add: run_quiz_def run_loop_ask_in_order Let_def
             split: option.splits prod.splits sum.splits)
  have res: "length rs = length questions \<and> set rs \<subseteq> {0, 1}"
    if "ask_in_order lower sh sep fqn 0 questions w = Some (Inr rs, w')" for rs w'
    using that by (rule ask_in_order_results)
  from run [of score_per_question] run [of 1] res show ?thesis
    by (simp only:) blast
qed

theorem run_quiz_sum_in_order_witness:
  "map_option fst
     (run_quiz ascii_lower reverse_order
        [Free \<lparr>question = ''2+2?'', answers = 0\<rparr>,
         Multi \<lparr>question = ''Pick A'', answers = 1, wrong_answers = 2\<rparr>]
        5 ''--'' 1
        (world_of [[''4''], [''Apple''], [''Banana'']] (Some ''4'' ## Some ''apple'' ## sconst None)))
     = Some (Inr 2)
   \<and> map_option (stdout \<circ> snd)
     (run_quiz ascii_lower reverse_order
        [Free \<lparr>question = ''2+2?'', answers = 0\<rparr>,
         Multi \<lparr>question = ''Pick A'', answers = 1, wrong_answers = 2\<rparr>]
        5 ''--'' 1
        (world_of [[''4''], [''Apple''], [''Banana'']] (Some ''4'' ## Some ''apple'' ## sconst None)))
     = Some [''--'' @ newline, ''Question 1'' @ newline, ''--'' @ newline,
             ''2+2?'' @ newline, ''Your answer: '', ''Correct!'' @ newline,
             ''--'' @ newline, ''Question 2'' @ newline, ''--'' @ newline,
             ''Pick A'' @ newline @ ''a) Banana'' @ newline @ ''b) Apple'' @ newline,
             ''Your answer: '', ''Correct!'' @ newline,
             ''--'' @ newline, ''Your score: 2'' @ newline, ''--'' @ newline]"
proof -
  let ?q1 = "\<lparr>question = ''2+2?'', answers = 0\<rparr>"
  let ?q2 = "\<lparr>question = ''Pick A'', answers = 1, wrong_answers = 2\<rparr>"
  let ?w0 = "world_of [[''4''], [''Apple''], [''Banana'']]
               (Some ''4'' ## Some ''apple'' ## sconst None)"
  let ?h1 = "print ''--'' (print ''Question 1'' (print ''--'' ?w0))"
  have "fst (Question_ask ascii_lower ?q1 ?h1) = Inr 1"
    and "stdin (snd (Question_ask ascii_lower ?q1 ?h1)) = Some ''apple'' ## sconst None"
    and "stdout (snd (Question_ask ascii_lower ?q1 ?h1)) =
           [''--'' @ newline, ''Question 1'' @ newline, ''--'' @ newline,
            ''2+2?'' @ newline, ''Your answer: '', ''Correct!'' @ newline]"
    and "heap (snd (Question_ask ascii_lower ?q1 ?h1)) = heap ?w0"
    and "next_ref (snd (Question_ask ascii_lower ?q1 ?h1)) = 3"
    by (simp_all add: Question_ask_def input_def Let_def lower_eval)
  then obtain w1 where first: "Question_ask ascii_lower ?q1 ?h1 = (Inr 1, w1)"
    and w1: "stdin w1 = Some ''apple'' ## sconst None"
      "stdout w1 = [''--'' @ newline, ''Question 1'' @ newline, ''--'' @ newline,
                    ''2+2?'' @ newline, ''Your answer: '', ''Correct!'' @ newline]"
      "heap w1 = heap ?w0" "next_ref w1 = 3"
    by (metis prod.collapse)
  let ?h2 = "print ''--'' (print ''Question 2'' (print ''--'' w1))"
  obtain w2 where second: "MultiChoiceQuestion_ask ascii_lower reverse_order ?q2 ?h2 = Some (Inr 1, w2)"
    and w2: "stdout w2 = stdout w1 @
               [''--'' @ newline, ''Question 2'' @ newline, ''--'' @ newline,
                ''Pick A'' @ newline @ ''a) Banana'' @ newline @ ''b) Apple'' @ newline,
                ''Your answer: '', ''Correct!'' @ newline]"
    using MultiChoiceQuestion_ask_resolved [OF refl refl _ _ _ refl,
       where bad = "[]" and l = "''apple''" and rest = "sconst None" and sh = reverse_order
         and self = ?q2 and w = ?h2 and lower = ascii_lower]
    by (simp add: w1 example_eval reprompts_def full_question_text_def format_option_def)
  have order: "ask_in_order ascii_lower reverse_order ''--'' 1 0 [Free ?q1, Multi ?q2] ?w0
                 = Some (Inr [1, 1], w2)"
    using first second by (simp add: str_int_examples)
  show ?thesis
    using run_quiz_sum_in_order
      [of "[Free ?q1, Multi ?q2]" ascii_lower reverse_order 5 "''--''" 1 ?w0]
    unfolding order by (simp add: w1 w2 str_int_examples)
qed

end
